theory Spec2Isabelle
  imports Main
begin

section \<open>The command line driver of doit (\<^verbatim>\<open>doit/doit_cmd.py\<close>)\<close>

text \<open>
  The module is Python 2. Strings are \<^typ>\<open>string\<close>, lists are HOL lists, a raised
  exception is the \<open>Inl\<close> side of a sum, and everything the module prints, writes to
  \<^verbatim>\<open>sys.stderr\<close> or hands to another module is an \<open>event\<close> of a trace, in the order
  in which it happens.
\<close>

subsection \<open>Exceptions and effects\<close>

text \<open>
  The four exception classes that \<^verbatim>\<open>cmd_main\<close> names in its first \<^verbatim>\<open>except\<close> clause carry
  their message (\<^verbatim>\<open>str(err)\<close>). \<open>IndexError\<close> and \<open>KeyError\<close> are the two built-in
  exceptions the code of this module can raise by itself; \<open>OtherException\<close> stands for
  every other subclass of Python's \<^verbatim>\<open>Exception\<close>.
\<close>

datatype exn =
    CmdParseError string
  | InvalidDodoFile string
  | InvalidCommand string
  | InvalidTask string
  | IndexError
  | KeyError string
  | OtherException string

datatype event =
    PrintVersion
  | PrintUsage
  | PrintTaskHelp
  | PrintCmdHelp string
  | ResetVars
  | SetVar string string
  | GetTasks
  | ParseExecute string "string list"
  | StderrWrite string
  | StderrTraceback exn

text \<open>
  \<open>PrintVersion\<close>, \<open>PrintUsage\<close> and \<open>PrintTaskHelp\<close> are the calls of
  \<^verbatim>\<open>DoitMain.print_version\<close>, \<^verbatim>\<open>DoitMain.print_usage\<close> and \<^verbatim>\<open>Help.print_task_help\<close>;
  \<open>PrintCmdHelp n\<close> is \<^verbatim>\<open>print params['sub'][n].help()\<close>; \<open>ResetVars\<close> and
  \<open>SetVar name value\<close> are the calls \<^verbatim>\<open>doit.reset_vars()\<close> and
  \<^verbatim>\<open>doit.set_var(name, value)\<close>; \<open>GetTasks\<close> is the call of \<^verbatim>\<open>loader.get_tasks\<close>;
  \<open>ParseExecute c args\<close> is the call \<^verbatim>\<open>sub_cmd[c].parse_execute(args, sub=sub_cmd)\<close>;
  \<open>StderrWrite s\<close> is \<^verbatim>\<open>sys.stderr.write(s)\<close> and \<open>StderrTraceback e\<close> is
  \<^verbatim>\<open>sys.stderr.write(traceback.format_exc())\<close> while \<open>e\<close> is being handled.
\<close>

subsection \<open>The command registry\<close>

datatype cmd = Help | Run | List | Clean | Forget | Ignore | Auto

definition DOIT_BUILTIN_CMDS :: "cmd list" where
  "DOIT_BUILTIN_CMDS = [Help, Run, List, Clean, Forget, Ignore, Auto]"

text \<open>
  Modelled from the spec: the attribute \<^verbatim>\<open>name\<close> of a command, set by the base class
  \<^verbatim>\<open>Command\<close> of \<^verbatim>\<open>doit/cmd_base.py\<close>, which is not part of the sources at hand. The spec
  gives a command the identity "lowercase name"; the usage text of
  \<^verbatim>\<open>DoitMain.print_usage\<close> lists the same names.
\<close>

fun cmd_name :: "cmd \<Rightarrow> string" where
  "cmd_name Help = ''help''"
| "cmd_name Run = ''run''"
| "cmd_name List = ''list''"
| "cmd_name Clean = ''clean''"
| "cmd_name Forget = ''forget''"
| "cmd_name Ignore = ''ignore''"
| "cmd_name Auto = ''auto''"

text \<open>
  \<^verbatim>\<open>sub_cmd = dict((cmd.name, cmd) for cmd in DOIT_BUILTIN_CMDS)\<close>: a later pair
  replaces an earlier one with the same key.
\<close>

definition sub_cmd :: "string \<rightharpoonup> cmd" where
  "sub_cmd = fold (\<lambda>c d. d(cmd_name c \<mapsto> c)) DOIT_BUILTIN_CMDS Map.empty"

subsection \<open>Variables on the command line\<close>

text \<open>
  \<^verbatim>\<open>arg.split('=', 1)\<close> for an \<open>arg\<close> that contains the separator: the text before the
  first separator and the text after it.
\<close>

definition split1 :: "char \<Rightarrow> string \<Rightarrow> string \<times> string" where
  "split1 sep s = (takeWhile (\<lambda>c. c \<noteq> sep) s, tl (dropWhile (\<lambda>c. c \<noteq> sep) s))"

text \<open>
  The loop \<^verbatim>\<open>for arg in cmd_args\<close> of \<^verbatim>\<open>cmd_main\<close>. The accumulators are the calls of
  \<^verbatim>\<open>doit.set_var\<close> made so far, in order, and the list \<^verbatim>\<open>args_no_vars\<close>. The test
  \<^verbatim>\<open>arg[0] != '-'\<close> is evaluated first and raises \<^verbatim>\<open>IndexError\<close> on the empty string;
  the loop is outside the \<^verbatim>\<open>try\<close> block, so the exception leaves \<^verbatim>\<open>cmd_main\<close>.
\<close>

fun get_vars ::
  "string list \<Rightarrow> (string \<times> string) list \<Rightarrow> string list \<Rightarrow>
   (string \<times> string) list \<times> (exn + string list)" where
  "get_vars [] vars args_no_vars = (vars, Inr args_no_vars)"
| "get_vars (arg # rest) vars args_no_vars =
     (if arg = [] then (vars, Inl IndexError)
      else if arg ! 0 \<noteq> CHR ''-'' \<and> CHR ''='' \<in> set arg then
        (case split1 (CHR ''='') arg of
           (name, value) \<Rightarrow> get_vars rest (vars @ [(name, value)]) args_no_vars)
      else get_vars rest vars (args_no_vars @ [arg]))"

subsection \<open>Choosing and running the command\<close>

text \<open>
  \<^verbatim>\<open>if len(args_no_vars) == 0 or args_no_vars[0] not in sub_cmd.keys()\<close>: the command
  is \<^verbatim>\<open>'run'\<close>, or else \<^verbatim>\<open>args_no_vars.pop(0)\<close>. The result is the command name and
  what is left of \<^verbatim>\<open>args_no_vars\<close>.
\<close>

definition get_command :: "string list \<Rightarrow> string \<times> string list" where
  "get_command args_no_vars =
     (if length args_no_vars = 0 \<or> sub_cmd (args_no_vars ! 0) = None
      then (''run'', args_no_vars)
      else (args_no_vars ! 0, tl args_no_vars))"

text \<open>The two \<^verbatim>\<open>except\<close> clauses: what is written to \<^verbatim>\<open>sys.stderr\<close> for an exception.\<close>

fun report :: "exn \<Rightarrow> event" where
  "report (CmdParseError m) = StderrWrite (''ERROR: '' @ m @ [CHR 0x0A])"
| "report (InvalidDodoFile m) = StderrWrite (''ERROR: '' @ m @ [CHR 0x0A])"
| "report (InvalidCommand m) = StderrWrite (''ERROR: '' @ m @ [CHR 0x0A])"
| "report (InvalidTask m) = StderrWrite (''ERROR: '' @ m @ [CHR 0x0A])"
| "report e = StderrTraceback e"

text \<open>
  The \<^verbatim>\<open>try\<close> block. \<^verbatim>\<open>parse_execute\<close> belongs to the base class \<^verbatim>\<open>Command\<close> and to the
  executors behind it, so it is a parameter: given the command, the variables set so
  far and the arguments, it returns an integer or raises. The lookup
  \<^verbatim>\<open>sub_cmd[command]\<close> is inside the \<^verbatim>\<open>try\<close>, so its \<^verbatim>\<open>KeyError\<close> would be caught by
  \<^verbatim>\<open>except Exception\<close>.
\<close>

definition execute_command ::
  "(cmd \<Rightarrow> (string \<times> string) list \<Rightarrow> string list \<Rightarrow> exn + int) \<Rightarrow>
   (string \<times> string) list \<Rightarrow> string \<Rightarrow> string list \<Rightarrow> int \<times> event list" where
  "execute_command parse_execute vars command args =
     (case sub_cmd command of
        None \<Rightarrow> (3, [report (KeyError command)])
      | Some c \<Rightarrow>
          (case parse_execute c vars args of
             Inr rc \<Rightarrow> (rc, [ParseExecute command args])
           | Inl err \<Rightarrow> (3, [ParseExecute command args, report err])))"

text \<open>
  \<^verbatim>\<open>cmd_main\<close>: the result is the return value, or the exception that leaves the
  function, together with the trace of effects.
\<close>

definition cmd_main ::
  "(cmd \<Rightarrow> (string \<times> string) list \<Rightarrow> string list \<Rightarrow> exn + int) \<Rightarrow>
   string list \<Rightarrow> (exn + int) \<times> event list" where
  "cmd_main parse_execute cmd_args =
     (if cmd_args \<noteq> [] \<and> cmd_args ! 0 = ''--version'' then (Inr 0, [PrintVersion])
      else if cmd_args \<noteq> [] \<and> cmd_args ! 0 = ''--help'' then (Inr 0, [PrintUsage])
      else
        (case get_vars cmd_args [] [] of
           (vars, Inl e) \<Rightarrow> (Inl e, ResetVars # map (\<lambda>(n, v). SetVar n v) vars)
         | (vars, Inr args_no_vars) \<Rightarrow>
             (case get_command args_no_vars of
                (command, args) \<Rightarrow>
                  (case execute_command parse_execute vars command args of
                     (rc, out) \<Rightarrow>
                       (Inr rc, ResetVars # map (\<lambda>(n, v). SetVar n v) vars @ out)))))"

section \<open>Options, parameters and the commands\<close>

subsection \<open>Option dictionaries\<close>

text \<open>
  A value of an option or of the manifest's configuration: \<^verbatim>\<open>None\<close>, a boolean, an
  integer, a string, a list of strings, or the stream \<^verbatim>\<open>sys.stdout\<close> (the default of
  \<^verbatim>\<open>opt_outfile\<close>).
\<close>

datatype val = VNone | VBool bool | VInt int | VStr string | VList "string list" | VStdout

datatype opt_type = TStr | TBool | TInt

text \<open>
  An option dictionary, field by field (\<open>opt_name\<close> is the key \<^verbatim>\<open>'name'\<close>, and so on);
  the key \<^verbatim>\<open>'inverse'\<close> is optional. The \<^verbatim>\<open>'help'\<close> texts are left out.
\<close>

record opt =
  opt_name :: string
  opt_short :: string
  opt_long :: string
  opt_inverse :: "string option"
  opt_type :: opt_type
  opt_default :: val

definition opt_dodo :: opt where
  "opt_dodo = \<lparr>opt_name = ''dodoFile'', opt_short = ''f'', opt_long = ''file'',
     opt_inverse = None, opt_type = TStr, opt_default = VStr ''dodo.py''\<rparr>"

definition opt_cwd :: opt where
  "opt_cwd = \<lparr>opt_name = ''cwdPath'', opt_short = ''d'', opt_long = ''dir'',
     opt_inverse = None, opt_type = TStr, opt_default = VNone\<rparr>"

definition opt_seek_file :: opt where
  "opt_seek_file = \<lparr>opt_name = ''seek_file'', opt_short = [], opt_long = ''seek-file'',
     opt_inverse = None, opt_type = TBool, opt_default = VBool False\<rparr>"

definition opt_outfile :: opt where
  "opt_outfile = \<lparr>opt_name = ''outfile'', opt_short = ''o'', opt_long = ''output-file'',
     opt_inverse = None, opt_type = TStr, opt_default = VStdout\<rparr>"

definition opt_depfile :: opt where
  "opt_depfile = \<lparr>opt_name = ''dep_file'', opt_short = [], opt_long = ''db-file'',
     opt_inverse = None, opt_type = TStr, opt_default = VStr ''.doit.db''\<rparr>"

definition opt_always :: opt where
  "opt_always = \<lparr>opt_name = ''always'', opt_short = ''a'', opt_long = ''always-execute'',
     opt_inverse = None, opt_type = TBool, opt_default = VBool False\<rparr>"

definition opt_continue :: opt where
  "opt_continue = \<lparr>opt_name = ''continue'', opt_short = ''c'', opt_long = ''continue'',
     opt_inverse = Some ''no-continue'', opt_type = TBool, opt_default = VBool False\<rparr>"

definition opt_num_process :: opt where
  "opt_num_process = \<lparr>opt_name = ''num_process'', opt_short = ''n'', opt_long = ''process'',
     opt_inverse = None, opt_type = TInt, opt_default = VInt 0\<rparr>"

definition opt_verbosity :: opt where
  "opt_verbosity = \<lparr>opt_name = ''verbosity'', opt_short = ''v'', opt_long = ''verbosity'',
     opt_inverse = None, opt_type = TInt, opt_default = VNone\<rparr>"

definition opt_reporter :: opt where
  "opt_reporter = \<lparr>opt_name = ''reporter'', opt_short = ''r'', opt_long = ''reporter'',
     opt_inverse = None, opt_type = TStr, opt_default = VStr ''default''\<rparr>"

definition opt_listall :: opt where
  "opt_listall = \<lparr>opt_name = ''all'', opt_short = [], opt_long = ''all'',
     opt_inverse = None, opt_type = TBool, opt_default = VBool False\<rparr>"

definition opt_list_quiet :: opt where
  "opt_list_quiet = \<lparr>opt_name = ''quiet'', opt_short = ''q'', opt_long = ''quiet'',
     opt_inverse = None, opt_type = TBool, opt_default = VBool False\<rparr>"

definition opt_list_status :: opt where
  "opt_list_status = \<lparr>opt_name = ''status'', opt_short = ''s'', opt_long = ''status'',
     opt_inverse = None, opt_type = TBool, opt_default = VBool False\<rparr>"

definition opt_list_private :: opt where
  "opt_list_private = \<lparr>opt_name = ''private'', opt_short = ''p'', opt_long = ''private'',
     opt_inverse = None, opt_type = TBool, opt_default = VBool False\<rparr>"

definition opt_list_dependencies :: opt where
  "opt_list_dependencies = \<lparr>opt_name = ''list_deps'', opt_short = [], opt_long = ''deps'',
     opt_inverse = None, opt_type = TBool, opt_default = VBool False\<rparr>"

definition opt_clean_dryrun :: opt where
  "opt_clean_dryrun = \<lparr>opt_name = ''dryrun'', opt_short = ''n'', opt_long = ''dry-run'',
     opt_inverse = None, opt_type = TBool, opt_default = VBool False\<rparr>"

definition opt_clean_cleandep :: opt where
  "opt_clean_cleandep = \<lparr>opt_name = ''cleandep'', opt_short = ''c'', opt_long = ''clean-dep'',
     opt_inverse = None, opt_type = TBool, opt_default = VBool False\<rparr>"

definition opt_clean_cleanall :: opt where
  "opt_clean_cleanall = \<lparr>opt_name = ''cleanall'', opt_short = ''a'', opt_long = ''clean-all'',
     opt_inverse = None, opt_type = TBool, opt_default = VBool False\<rparr>"

definition base_options :: "opt list" where
  "base_options = [opt_dodo, opt_cwd, opt_seek_file, opt_depfile]"

text \<open>The tuple \<^verbatim>\<open>cmd_options\<close> of each class; \<^verbatim>\<open>Help\<close> declares none.\<close>

fun cmd_options :: "cmd \<Rightarrow> opt list" where
  "cmd_options Run =
     [opt_always, opt_continue, opt_verbosity, opt_reporter, opt_outfile, opt_num_process]"
| "cmd_options List =
     [opt_listall, opt_list_quiet, opt_list_status, opt_list_private, opt_list_dependencies]"
| "cmd_options Clean = [opt_clean_cleandep, opt_clean_cleanall, opt_clean_dryrun]"
| "cmd_options Forget = []"
| "cmd_options Ignore = []"
| "cmd_options Auto = [opt_verbosity]"
| "cmd_options Help = []"

text \<open>
  \<^verbatim>\<open>DoitCmdBase.set_options\<close>, for the six classes that derive from \<^verbatim>\<open>DoitCmdBase\<close>:
  \<^verbatim>\<open>opt_list = self.base_options + self.cmd_options\<close>.
\<close>

definition set_options :: "cmd \<Rightarrow> opt list" where
  "set_options c = base_options @ cmd_options c"

subsection \<open>The parameters of an invocation\<close>

text \<open>
  Modelled from the spec: the object \<^verbatim>\<open>params\<close> that \<^verbatim>\<open>Command.parse_execute\<close> builds and
  its method \<^verbatim>\<open>update_defaults\<close>, both of \<^verbatim>\<open>doit/cmdparse.py\<close> and
  \<^verbatim>\<open>doit/cmd_base.py\<close>, which are not part of the sources at hand. By the spec a ParamSet
  maps option ids to values, holds the command registry under a reserved key
  (\<^verbatim>\<open>params['sub']\<close>), is created from the OptionSpec defaults and is then changed in two
  ordered passes, the explicit command line values first and the manifest's defaults
  second; whether an option was set on the command line is a presence bit per option
  (the field \<open>explicit\<close>).
\<close>

record param_set =
  vals :: "string \<rightharpoonup> val"
  explicit :: "string set"
  sub :: "string \<rightharpoonup> cmd"

text \<open>Modelled from the spec: a fresh ParamSet holds the default of every option.\<close>

definition default_params :: "opt list \<Rightarrow> (string \<rightharpoonup> cmd) \<Rightarrow> param_set" where
  "default_params opts reg =
     \<lparr>vals = fold (\<lambda>ospec m. m(opt_name ospec \<mapsto> opt_default ospec)) opts Map.empty,
      explicit = {}, sub = reg\<rparr>"

text \<open>
  Modelled from the spec: the first pass. \<open>cli\<close> lists, in the order of argv, the option
  ids that the command line sets and their typed values.
\<close>

definition set_cli :: "string \<times> val \<Rightarrow> param_set \<Rightarrow> param_set" where
  "set_cli kv p =
     p\<lparr>vals := (vals p)(fst kv \<mapsto> snd kv), explicit := insert (fst kv) (explicit p)\<rparr>"

definition cli_params ::
  "opt list \<Rightarrow> (string \<rightharpoonup> cmd) \<Rightarrow> (string \<times> val) list \<Rightarrow> param_set" where
  "cli_params opts reg cli = fold set_cli cli (default_params opts reg)"

text \<open>
  Modelled from the spec: the second pass, \<^verbatim>\<open>params.update_defaults(config)\<close>, "merges
  config's declared option defaults into params only for options not explicitly set on
  the CLI".
\<close>

definition update_defaults :: "param_set \<Rightarrow> (string \<rightharpoonup> val) \<Rightarrow> param_set" where
  "update_defaults p cfg =
     p\<lparr>vals := (\<lambda>k. if k \<in> explicit p then vals p k
                     else (case cfg k of Some v \<Rightarrow> Some v | None \<Rightarrow> vals p k))\<rparr>"

text \<open>\<^verbatim>\<open>params[k]\<close> raises \<^verbatim>\<open>KeyError\<close> for a missing key.\<close>

definition getitem :: "param_set \<Rightarrow> string \<Rightarrow> exn + val" where
  "getitem p k = (case vals p k of None \<Rightarrow> Inl (KeyError k) | Some v \<Rightarrow> Inr v)"

subsection \<open>Reading the manifest\<close>

text \<open>
  What \<^verbatim>\<open>loader.get_tasks\<close> returns: a dictionary with the keys \<^verbatim>\<open>'task_list'\<close> and
  \<^verbatim>\<open>'config'\<close>. Tasks are opaque to this module (the type parameter).
\<close>

record 't dodo_tasks =
  dt_task_list :: "'t list"
  dt_config :: "string \<rightharpoonup> val"

text \<open>The attributes that \<^verbatim>\<open>read_dodo\<close> sets on the command object.\<close>

record 't self =
  task_list :: "'t list"
  config :: "string \<rightharpoonup> val"
  sel_tasks :: val

text \<open>
  \<^verbatim>\<open>DoitCmdBase.read_dodo\<close>. The loader is a parameter: it gets the manifest path, the
  working directory, the seek flag and the keys of the registry, and returns the tasks
  or raises. \<^verbatim>\<open>args or self.config.get('default_tasks')\<close> is \<^verbatim>\<open>args\<close> when the list is not
  empty and otherwise the value of the key, \<^verbatim>\<open>None\<close> when the key is missing.
\<close>

definition read_dodo ::
  "(val \<Rightarrow> val \<Rightarrow> val \<Rightarrow> string set \<Rightarrow> exn + 't dodo_tasks) \<Rightarrow>
   param_set \<Rightarrow> string list \<Rightarrow> (exn + param_set \<times> 't self) \<times> event list" where
  "read_dodo get_tasks params args =
     (case getitem params ''dodoFile'' of
        Inl e \<Rightarrow> (Inl e, [])
      | Inr dodoFile \<Rightarrow>
     (case getitem params ''cwdPath'' of
        Inl e \<Rightarrow> (Inl e, [])
      | Inr cwdPath \<Rightarrow>
     (case getitem params ''seek_file'' of
        Inl e \<Rightarrow> (Inl e, [])
      | Inr seek_file \<Rightarrow>
     (case get_tasks dodoFile cwdPath seek_file (dom (sub params)) of
        Inl e \<Rightarrow> (Inl e, [GetTasks])
      | Inr dodo_tasks \<Rightarrow>
          (Inr (update_defaults params (dt_config dodo_tasks),
                \<lparr>task_list = dt_task_list dodo_tasks,
                 config = dt_config dodo_tasks,
                 sel_tasks =
                   (if args \<noteq> [] then VList args
                    else (case dt_config dodo_tasks ''default_tasks'' of
                            None \<Rightarrow> VNone
                          | Some v \<Rightarrow> v))\<rparr>),
           [GetTasks])))))"

subsection \<open>The help command\<close>

text \<open>
  \<^verbatim>\<open>Help.execute\<close>: the return value and what is printed. \<^verbatim>\<open>args[0] in params['sub']\<close> is
  the test whether the registry has the key.
\<close>

definition Help_execute :: "param_set \<Rightarrow> string list \<Rightarrow> int \<times> event list" where
  "Help_execute params args =
     (if length args = 1 then
        (if sub params (args ! 0) \<noteq> None then (0, [PrintCmdHelp (args ! 0)])
         else if args ! 0 = ''task'' then (0, [PrintTaskHelp])
         else (0, [PrintUsage]))
      else (0, [PrintUsage]))"

subsection \<open>Boolean options with an inverse flag\<close>

text \<open>
  Modelled from the spec: how a boolean option is resolved from argv. The parser is
  \<^verbatim>\<open>doit/cmdparse.py\<close>, which is not part of the sources at hand; the source at hand only
  declares \<^verbatim>\<open>opt_continue\<close> with its \<^verbatim>\<open>'inverse'\<close> flag. By the spec the long or short
  flag alone means true, the inverse long flag forces false, and "when both the flag and
  its inverse appear, the later occurrence in argv order wins": the tokens are read
  from left to right and every occurrence overwrites the value.
\<close>

definition is_flag :: "opt \<Rightarrow> string \<Rightarrow> bool" where
  "is_flag ospec tok =
     (tok = ''--'' @ opt_long ospec \<or>
      (opt_short ospec \<noteq> [] \<and> tok = CHR ''-'' # opt_short ospec))"

definition is_inverse :: "opt \<Rightarrow> string \<Rightarrow> bool" where
  "is_inverse ospec tok =
     (case opt_inverse ospec of None \<Rightarrow> False | Some iflag \<Rightarrow> tok = ''--'' @ iflag)"

fun parse_bool :: "opt \<Rightarrow> string list \<Rightarrow> bool \<Rightarrow> bool" where
  "parse_bool ospec [] v = v"
| "parse_bool ospec (tok # rest) v =
     parse_bool ospec rest
       (if is_flag ospec tok then True else if is_inverse ospec tok then False else v)"

text \<open>
  The position of the last element of a list that satisfies a predicate, for the
  statement of the inverse-boolean law.
\<close>

primrec last_pos :: "('a \<Rightarrow> bool) \<Rightarrow> 'a list \<Rightarrow> nat option" where
  "last_pos P [] = None"
| "last_pos P (x # xs) =
     (case last_pos P xs of
        Some i \<Rightarrow> Some (Suc i)
      | None \<Rightarrow> if P x then Some 0 else None)"

section \<open>Properties of the dispatcher\<close>

subsection \<open>The registry\<close>

lemma sub_cmd_simps:
  "sub_cmd ''help'' = Some Help" "sub_cmd ''run'' = Some Run" "sub_cmd ''list'' = Some List"
  "sub_cmd ''clean'' = Some Clean" "sub_cmd ''forget'' = Some Forget"
  "sub_cmd ''ignore'' = Some Ignore" "sub_cmd ''auto'' = Some Auto"
  by (simp_all add: sub_cmd_def DOIT_BUILTIN_CMDS_def)

lemma sub_cmd_name: "sub_cmd n = Some c \<Longrightarrow> cmd_name c = n"
  by (auto simp: sub_cmd_def DOIT_BUILTIN_CMDS_def split: if_splits)

lemma dom_sub_cmd: "dom sub_cmd = cmd_name ` set DOIT_BUILTIN_CMDS"
  by (auto simp: sub_cmd_def DOIT_BUILTIN_CMDS_def split: if_splits)

lemma get_command_registered:
  "\<exists>c. sub_cmd (fst (get_command args)) = Some c \<and> cmd_name c = fst (get_command args)"
  by (auto simp: get_command_def sub_cmd_simps dest: sub_cmd_name)

subsection \<open>Splitting at the first separator\<close>

lemma split1_first: "sep \<notin> set n \<Longrightarrow> split1 sep (n @ sep # v) = (n, v)"
  unfolding split1_def by (induction n) auto

lemma split1_join:
  "sep \<in> set s \<Longrightarrow>
     fst (split1 sep s) @ sep # snd (split1 sep s) = s \<and> sep \<notin> set (fst (split1 sep s))"
  unfolding split1_def
proof (induction s)
  case Nil
  then show ?case by simp
next
  case (Cons a s)
  then show ?case by (cases "a = sep") auto
qed

subsection \<open>The scan for variables\<close>

text \<open>The scan of a concatenation: the second part starts where the first one stopped.\<close>

lemma get_vars_append:
  "get_vars (xs @ ys) vars args =
     (case get_vars xs vars args of
        (vars', Inl e) \<Rightarrow> (vars', Inl e)
      | (vars', Inr args') \<Rightarrow> get_vars ys vars' args')"
  by (induction xs arbitrary: vars args) (auto split: prod.splits)

text \<open>
  When no token is empty, the scan records the tokens that do not start with \<open>-\<close> and
  contain \<open>=\<close>, each split at its first \<open>=\<close>, and keeps all the others, both in their
  order.
\<close>

lemma get_vars_filter:
  assumes "[] \<notin> set cmd_args"
  shows "get_vars cmd_args vars args =
    (vars @ map (split1 (CHR ''=''))
       (filter (\<lambda>a. a ! 0 \<noteq> CHR ''-'' \<and> CHR ''='' \<in> set a) cmd_args),
     Inr (args @ filter (\<lambda>a. \<not> (a ! 0 \<noteq> CHR ''-'' \<and> CHR ''='' \<in> set a)) cmd_args))"
  using assms by (induction cmd_args arbitrary: vars args) (auto split: prod.splits)

text \<open>
  An example: the variable is split at its first \<open>=\<close> only, and a token that starts with
  \<open>-\<close> is kept although it contains \<open>=\<close>.
\<close>

lemma get_vars_example:
  "get_vars [''a=b=c'', ''-x=1'', ''t''] [] [] = ([(''a'', ''b=c'')], Inr [''-x=1'', ''t''])"
  by (simp add: split1_def)

text \<open>The scan raises exactly when some token is the empty string.\<close>

lemma get_vars_raises:
  "(\<exists>e. snd (get_vars cmd_args vars args) = Inl e) \<longleftrightarrow> [] \<in> set cmd_args"
  by (induction cmd_args arbitrary: vars args) (auto split: prod.splits)

text \<open>
  Claim C2. The scan does not keep every token that is not a variable assignment: the
  empty string does not start with \<open>-\<close> and contains no \<open>=\<close>, but the test
  \<^verbatim>\<open>arg[0] != '-'\<close> raises \<^verbatim>\<open>IndexError\<close> on it. For the arguments \<^verbatim>\<open>['a=b', '', 'c']\<close> the
  variable \<open>a\<close> is recorded, and then the scan stops with the exception: neither the
  empty token nor \<open>c\<close> is forwarded.
\<close>

theorem get_vars_empty_token:
  "get_vars [''a=b'', [], ''c''] [] [] = ([(''a'', ''b'')], Inl IndexError)"
  by (simp add: split1_def)

text \<open>
  Claim C10. Whenever the scan reaches a token whose first character is \<open>=\<close>, it records
  the variable with the empty name and the rest of the token as its value, does not add
  the token to \<^verbatim>\<open>args_no_vars\<close>, and goes on with the next token.
\<close>

theorem get_vars_empty_name:
  assumes "get_vars pre vars args = (vars', Inr args')"
  shows "get_vars (pre @ (CHR ''='' # v) # post) vars args =
         get_vars post (vars' @ [([], v)]) args'"
  using assms by (simp add: get_vars_append split1_def)

theorem get_vars_empty_name_witness:
  "get_vars [''a=1''] [] [] = ([(''a'', ''1'')], Inr []) \<and>
   get_vars [''a=1'', ''=value'', ''t''] [] [] =
     ([(''a'', ''1''), ([], ''value'')], Inr [''t''])"
proof -
  have pre: "get_vars [''a=1''] [] [] = ([(''a'', ''1'')], Inr [])"
    by (simp add: split1_def)
  from get_vars_empty_name [OF pre, of "''value''" "[''t'']"] pre
  show ?thesis by simp
qed

subsection \<open>The special parameters\<close>

text \<open>
  Claim C7. When the first token is \<open>--version\<close> or \<open>--help\<close>, \<open>cmd_main\<close> returns 0
  whatever the other tokens are, and the only effect is the print of the version or of
  the usage: no variable is reset or set and \<open>parse_execute\<close> is not called.
\<close>

theorem cmd_main_version_help:
  "cmd_main parse_execute (''--version'' # rest) = (Inr 0, [PrintVersion]) \<and>
   cmd_main parse_execute (''--help'' # rest) = (Inr 0, [PrintUsage])"
  by (simp add: cmd_main_def)

theorem cmd_main_version_help_witness:
  "cmd_main (\<lambda>c vars args. Inl (OtherException ''unused'')) [''--version'', [], ''x=1''] =
     (Inr 0, [PrintVersion]) \<and>
   cmd_main (\<lambda>c vars args. Inl (OtherException ''unused'')) [''--help'', ''list''] =
     (Inr 0, [PrintUsage])"
  using cmd_main_version_help [of "\<lambda>c vars args. Inl (OtherException ''unused'')" "[[], ''x=1'']"]
    cmd_main_version_help [of "\<lambda>c vars args. Inl (OtherException ''unused'')" "[''list'']"]
  by simp

subsection \<open>The command that is run\<close>

lemma execute_command_trace:
  assumes "sub_cmd command = Some c"
  shows "\<exists>out. snd (execute_command pe vars command args) = ParseExecute command args # out"
  using assms by (simp add: execute_command_def split: sum.splits)

text \<open>
  Claim C3. When the special parameters do not apply and the scan for variables ends with
  the list \<open>args_no_vars\<close>, \<open>cmd_main\<close> calls \<open>parse_execute\<close> of the command \<open>run\<close>
  with the whole list if the list is empty or its first element is not a key of the
  registry, and otherwise of the command that the first element names, with the rest of
  the list.
\<close>

theorem command_resolution:
  assumes "cmd_args = [] \<or> (cmd_args ! 0 \<noteq> ''--version'' \<and> cmd_args ! 0 \<noteq> ''--help'')"
    and "get_vars cmd_args [] [] = (vars, Inr args_no_vars)"
  shows "\<exists>out. snd (cmd_main pe cmd_args) =
           ResetVars # map (\<lambda>(n, v). SetVar n v) vars @
           ParseExecute
             (if args_no_vars = [] \<or> hd args_no_vars \<notin> dom sub_cmd
              then ''run'' else hd args_no_vars)
             (if args_no_vars = [] \<or> hd args_no_vars \<notin> dom sub_cmd
              then args_no_vars else tl args_no_vars)
           # out"
proof -
  obtain command args where ca: "get_command args_no_vars = (command, args)"
    by (cases "get_command args_no_vars")
  obtain c where c: "sub_cmd command = Some c"
    using get_command_registered [of args_no_vars] ca by auto
  obtain out where
    out: "snd (execute_command pe vars command args) = ParseExecute command args # out"
    using execute_command_trace [OF c] by blast
  have sel:
    "command =
       (if args_no_vars = [] \<or> hd args_no_vars \<notin> dom sub_cmd then ''run'' else hd args_no_vars)"
    "args =
       (if args_no_vars = [] \<or> hd args_no_vars \<notin> dom sub_cmd then args_no_vars
        else tl args_no_vars)"
    using ca by (auto simp: get_command_def domIff hd_conv_nth split: if_splits)
  have "snd (cmd_main pe cmd_args) =
          ResetVars # map (\<lambda>(n, v). SetVar n v) vars @
          snd (execute_command pe vars command args)"
    using assms ca by (auto simp: cmd_main_def split: prod.splits)
  with out sel show ?thesis by simp
qed

theorem command_resolution_witness:
  "(\<exists>out. snd (cmd_main (\<lambda>c vars args. Inr 0) [''list'', ''--quiet'', ''x=1'', ''build'']) =
      ResetVars # SetVar ''x'' ''1'' # ParseExecute ''list'' [''--quiet'', ''build''] # out) \<and>
   (\<exists>out. snd (cmd_main (\<lambda>c vars args. Inr 0) [''build'', ''list'']) =
      ResetVars # ParseExecute ''run'' [''build'', ''list''] # out) \<and>
   (\<exists>out. snd (cmd_main (\<lambda>c vars args. Inr 0) []) = ResetVars # ParseExecute ''run'' [] # out)"
proof -
  have a1: "[''list'', ''--quiet'', ''x=1'', ''build''] = [] \<or>
      ([''list'', ''--quiet'', ''x=1'', ''build''] ! 0 \<noteq> ''--version'' \<and>
       [''list'', ''--quiet'', ''x=1'', ''build''] ! 0 \<noteq> ''--help'')"
    by simp
  have g1: "get_vars [''list'', ''--quiet'', ''x=1'', ''build''] [] [] =
      ([(''x'', ''1'')], Inr [''list'', ''--quiet'', ''build''])"
    by (simp add: split1_def)
  have a2: "[''build'', ''list''] = [] \<or>
      ([''build'', ''list''] ! 0 \<noteq> ''--version'' \<and> [''build'', ''list''] ! 0 \<noteq> ''--help'')"
    by simp
  have g2: "get_vars [''build'', ''list''] [] [] = ([], Inr [''build'', ''list''])"
    by simp
  have a3: "([] :: string list) = [] \<or> ([] ! 0 \<noteq> ''--version'' \<and> [] ! 0 \<noteq> ''--help'')"
    by simp
  have g3: "get_vars [] [] [] = ([], Inr [])"
    by simp
  have d: "''list'' \<in> dom sub_cmd" "''build'' \<notin> dom sub_cmd"
    by (simp_all add: dom_sub_cmd DOIT_BUILTIN_CMDS_def)
  from command_resolution [OF a1 g1, of "\<lambda>c vars args. Inr 0"]
    command_resolution [OF a2 g2, of "\<lambda>c vars args. Inr 0"]
    command_resolution [OF a3 g3, of "\<lambda>c vars args. Inr 0"] d
  show ?thesis by simp
qed

text \<open>
  Claim C9. The registry has the key \<open>run\<close>, and the command name that
  \<open>get_command\<close> chooses is a key of the registry for every list of arguments, so the
  lookup \<^verbatim>\<open>sub_cmd[command]\<close> finds a command, the one of that name.
\<close>

theorem command_lookup_total:
  "sub_cmd ''run'' = Some Run \<and>
   (\<exists>c. sub_cmd (fst (get_command args_no_vars)) = Some c \<and>
        cmd_name c = fst (get_command args_no_vars))"
  using get_command_registered [of args_no_vars] by (simp add: sub_cmd_simps)

theorem command_lookup_total_witness:
  "sub_cmd (fst (get_command [''clean'', ''-a''])) = Some Clean \<and>
   sub_cmd (fst (get_command [''-a'', ''clean''])) = Some Run \<and>
   sub_cmd (fst (get_command [])) = Some Run"
  using command_lookup_total [of "[''clean'', ''-a'']"] command_lookup_total [of "[''-a'', ''clean'']"]
    command_lookup_total [of "[]"]
  by (simp add: get_command_def sub_cmd_simps sub_cmd_def DOIT_BUILTIN_CMDS_def)

subsection \<open>Exceptions\<close>

text \<open>An exception of the command is caught: the return value is 3 and it is reported.\<close>

lemma execute_command_caught:
  assumes "sub_cmd command = Some c" and "pe c vars args = Inl err"
  shows "execute_command pe vars command args = (3, [ParseExecute command args, report err])"
  using assms by (simp add: execute_command_def)

lemma cmd_main_caught:
  assumes "cmd_args = [] \<or> (cmd_args ! 0 \<noteq> ''--version'' \<and> cmd_args ! 0 \<noteq> ''--help'')"
    and "get_vars cmd_args [] [] = (vars, Inr args_no_vars)"
    and "get_command args_no_vars = (command, args)"
    and "sub_cmd command = Some c"
    and "parse_execute c vars args = Inl err"
  shows "cmd_main parse_execute cmd_args =
         (Inr 3, ResetVars # map (\<lambda>(n, v). SetVar n v) vars @
                 [ParseExecute command args, report err])"
  using assms by (auto simp: cmd_main_def execute_command_caught)

text \<open>
  An exception leaves \<open>cmd_main\<close> exactly when the special parameters do not apply and
  some token is the empty string.
\<close>

lemma cmd_main_propagates_iff:
  "(\<exists>e. fst (cmd_main pe cmd_args) = Inl e) \<longleftrightarrow>
     [] \<in> set cmd_args \<and> hd cmd_args \<noteq> ''--version'' \<and> hd cmd_args \<noteq> ''--help''"
proof (cases "cmd_args \<noteq> [] \<and> (cmd_args ! 0 = ''--version'' \<or> cmd_args ! 0 = ''--help'')")
  case True
  then show ?thesis by (auto simp: cmd_main_def hd_conv_nth)
next
  case False
  obtain vars r where g: "get_vars cmd_args [] [] = (vars, r)"
    by (cases "get_vars cmd_args [] []")
  have "(\<exists>e. r = Inl e) \<longleftrightarrow> [] \<in> set cmd_args"
    using get_vars_raises [of cmd_args "[]" "[]"] g by simp
  moreover have "(\<exists>e. fst (cmd_main pe cmd_args) = Inl e) \<longleftrightarrow> (\<exists>e. r = Inl e)"
    using False g by (cases r) (auto simp: cmd_main_def split: prod.splits)
  moreover have "hd cmd_args \<noteq> ''--version'' \<and> hd cmd_args \<noteq> ''--help''"
    if "[] \<in> set cmd_args"
    using False that by (cases cmd_args) auto
  ultimately show ?thesis by blast
qed

text \<open>
  Claim C4. Not every exception is turned into the return value 3: for the single empty
  argument the scan for variables, which runs before the \<^verbatim>\<open>try\<close> block, raises
  \<^verbatim>\<open>IndexError\<close>, and the exception leaves \<open>cmd_main\<close> after \<^verbatim>\<open>doit.reset_vars()\<close>; nothing
  is written to the error stream.
\<close>

theorem cmd_main_empty_token:
  "cmd_main parse_execute [[]] = (Inl IndexError, [ResetVars])"
  by (simp add: cmd_main_def)

section \<open>Properties of the commands\<close>

subsection \<open>The help command\<close>

lemma task_not_registered: "sub_cmd ''task'' = None"
  by (simp add: sub_cmd_def DOIT_BUILTIN_CMDS_def)

text \<open>
  Claim C6. \<open>Help.execute\<close> returns 0 for every list of arguments and never calls the
  loader. It prints the help of a command when there is exactly one argument and it is
  a key of the registry in \<^verbatim>\<open>params['sub']\<close>, the task reference when the only argument is
  \<open>task\<close> (which is not a key of the registry of \<open>cmd_main\<close>), and the usage in every
  other case: no argument, more than one, or one that is neither.
\<close>

theorem Help_execute_cases:
  "fst (Help_execute params args) = 0 \<and>
   GetTasks \<notin> set (snd (Help_execute params args)) \<and>
   snd (Help_execute params args) =
     (if length args = 1 \<and> hd args \<in> dom (sub params) then [PrintCmdHelp (hd args)]
      else if args = [''task''] then [PrintTaskHelp]
      else [PrintUsage]) \<and>
   ''task'' \<notin> dom sub_cmd"
proof (cases args)
  case Nil
  then show ?thesis by (simp add: Help_execute_def domIff task_not_registered)
next
  case (Cons a rest)
  then show ?thesis
    by (cases rest) (auto simp: Help_execute_def domIff task_not_registered)
qed

theorem Help_execute_cases_witness:
  "Help_execute (default_params [] sub_cmd) [''list''] = (0, [PrintCmdHelp ''list'']) \<and>
   Help_execute (default_params [] sub_cmd) [''task''] = (0, [PrintTaskHelp]) \<and>
   Help_execute (default_params [] sub_cmd) [] = (0, [PrintUsage]) \<and>
   Help_execute (default_params [] sub_cmd) [''list'', ''run''] = (0, [PrintUsage]) \<and>
   Help_execute (default_params [] sub_cmd) [''build''] = (0, [PrintUsage])"
proof -
  have s: "sub (default_params [] sub_cmd) = sub_cmd"
    by (simp add: default_params_def)
  have d: "''list'' \<in> dom sub_cmd" "''build'' \<notin> dom sub_cmd"
    by (simp_all add: dom_sub_cmd DOIT_BUILTIN_CMDS_def)
  from Help_execute_cases [of "default_params [] sub_cmd" "[''list'']"]
    Help_execute_cases [of "default_params [] sub_cmd" "[''task'']"]
    Help_execute_cases [of "default_params [] sub_cmd" "[]"]
    Help_execute_cases [of "default_params [] sub_cmd" "[''list'', ''run'']"]
    Help_execute_cases [of "default_params [] sub_cmd" "[''build'']"] s d
  show ?thesis by (simp add: prod_eq_iff)
qed

subsection \<open>The selection of tasks\<close>

text \<open>
  Claim C8. When the parameters hold the three keys of the manifest and the loader
  returns, \<open>read_dodo\<close> returns too, keeps the task list and the configuration of the
  loader, and sets the selection to the positional arguments when there are any, and
  otherwise to the value of \<open>default_tasks\<close> in the configuration of the manifest
  (\<^verbatim>\<open>None\<close> when the manifest declares none).
\<close>

theorem read_dodo_sel_tasks:
  assumes "vals params ''dodoFile'' = Some f" and "vals params ''cwdPath'' = Some d"
    and "vals params ''seek_file'' = Some s"
    and "get_tasks f d s (dom (sub params)) = Inr dt"
  shows "\<exists>params'. fst (read_dodo get_tasks params args) =
           Inr (params',
                \<lparr>task_list = dt_task_list dt, config = dt_config dt,
                 sel_tasks = (if args \<noteq> [] then VList args
                              else (case dt_config dt ''default_tasks'' of
                                      Some v \<Rightarrow> v | None \<Rightarrow> VNone))\<rparr>)"
  using assms by (simp add: read_dodo_def getitem_def)

theorem read_dodo_sel_tasks_witness:
  "(\<exists>params'.
      fst (read_dodo
            (\<lambda>f d s k. Inr \<lparr>dt_task_list = [1::nat],
                             dt_config = [''default_tasks'' \<mapsto> VList [''build'']]\<rparr>)
            (cli_params (set_options Forget) sub_cmd []) []) =
      Inr (params',
           \<lparr>task_list = [1], config = [''default_tasks'' \<mapsto> VList [''build'']],
            sel_tasks = VList [''build'']\<rparr>)) \<and>
   (\<exists>params'.
      fst (read_dodo
            (\<lambda>f d s k. Inr \<lparr>dt_task_list = [1::nat],
                             dt_config = [''default_tasks'' \<mapsto> VList [''build'']]\<rparr>)
            (cli_params (set_options Forget) sub_cmd []) [''t1'']) =
      Inr (params',
           \<lparr>task_list = [1], config = [''default_tasks'' \<mapsto> VList [''build'']],
            sel_tasks = VList [''t1'']\<rparr>))"
proof -
  let ?p = "cli_params (set_options Forget) sub_cmd []"
  let ?ld = "\<lambda>(f::val) (d::val) (s::val) (k::string set).
     (Inr \<lparr>dt_task_list = [1::nat],
           dt_config = [''default_tasks'' \<mapsto> VList [''build'']]\<rparr> :: exn + nat dodo_tasks)"
  have f: "vals ?p ''dodoFile'' = Some (VStr ''dodo.py'')"
    and d: "vals ?p ''cwdPath'' = Some VNone"
    and s: "vals ?p ''seek_file'' = Some (VBool False)"
    by (simp_all add: cli_params_def default_params_def set_options_def base_options_def
        opt_dodo_def opt_cwd_def opt_seek_file_def opt_depfile_def)
  have l: "?ld (VStr ''dodo.py'') VNone (VBool False) (dom (sub ?p)) =
      Inr \<lparr>dt_task_list = [1::nat], dt_config = [''default_tasks'' \<mapsto> VList [''build'']]\<rparr>"
    by simp
  from read_dodo_sel_tasks [of ?p _ _ _ ?ld, OF f d s l, of "[]"]
    read_dodo_sel_tasks [of ?p _ _ _ ?ld, OF f d s l, of "[''t1'']"]
  show ?thesis by simp
qed

subsection \<open>The precedence of option values\<close>

lemma fold_upd:
  "fold (\<lambda>x m. m(f x \<mapsto> g x)) xs m0 = m0 ++ map_of (rev (map (\<lambda>x. (f x, g x)) xs))"
  by (induction xs arbitrary: m0)
    (simp_all add: map_add_upd_left fun_eq_iff map_add_def split: option.splits)

lemma vals_default_params:
  assumes "ospec \<in> set opts" and "distinct (map opt_name opts)"
  shows "vals (default_params opts reg) (opt_name ospec) = Some (opt_default ospec)"
proof -
  let ?kvs = "rev (map (\<lambda>x. (opt_name x, opt_default x)) opts)"
  have "distinct (map fst ?kvs)"
    using assms(2) by (simp add: rev_map [symmetric] comp_def)
  moreover have "(opt_name ospec, opt_default ospec) \<in> set ?kvs"
    using assms(1) by auto
  ultimately have "map_of ?kvs (opt_name ospec) = Some (opt_default ospec)"
    by (rule map_of_is_SomeI)
  then show ?thesis by (simp add: default_params_def fold_upd)
qed

lemma fold_set_cli:
  "vals (fold set_cli cli p) k =
     (case map_of (rev cli) k of Some v \<Rightarrow> Some v | None \<Rightarrow> vals p k)"
  "explicit (fold set_cli cli p) = fst ` set cli \<union> explicit p"
  "sub (fold set_cli cli p) = sub p"
  by (induction cli arbitrary: p) (auto simp: set_cli_def split: option.splits)

lemma map_of_rev_None: "map_of (rev cli) k = None \<longleftrightarrow> k \<notin> fst ` set cli"
  by (simp add: map_of_eq_None_iff)

text \<open>No two options of a command share their name.\<close>

lemma distinct_set_options: "distinct (map opt_name (set_options c))"
  by (cases c)
    (simp_all add: set_options_def base_options_def opt_dodo_def opt_cwd_def
      opt_seek_file_def opt_depfile_def opt_always_def opt_continue_def opt_verbosity_def
      opt_reporter_def opt_outfile_def opt_num_process_def opt_listall_def
      opt_list_quiet_def opt_list_status_def opt_list_private_def
      opt_list_dependencies_def opt_clean_cleandep_def opt_clean_cleanall_def
      opt_clean_dryrun_def)

text \<open>
  The value of an option after the pass over the command line: the last value the
  command line gives it, or else its default.
\<close>

lemma vals_cli_params:
  assumes "ospec \<in> set (set_options c)"
  shows "vals (cli_params (set_options c) reg cli) (opt_name ospec) =
     Some (case map_of (rev cli) (opt_name ospec) of
             Some v \<Rightarrow> v
           | None \<Rightarrow> opt_default ospec)"
  by (simp add: cli_params_def fold_set_cli
      vals_default_params [OF assms distinct_set_options] split: option.splits)

lemma explicit_cli_params: "explicit (cli_params opts reg cli) = fst ` set cli"
  by (simp add: cli_params_def fold_set_cli default_params_def)

lemma sub_cli_params: "sub (cli_params opts reg cli) = reg"
  by (simp add: cli_params_def fold_set_cli default_params_def)

text \<open>
  The three keys that \<open>read_dodo\<close> reads are options of every command that reads the
  manifest, so the lookups do not raise.
\<close>

lemma base_options_present:
  "\<exists>f d s. vals (cli_params (set_options c) reg cli) ''dodoFile'' = Some f \<and>
           vals (cli_params (set_options c) reg cli) ''cwdPath'' = Some d \<and>
           vals (cli_params (set_options c) reg cli) ''seek_file'' = Some s"
proof -
  have "opt_dodo \<in> set (set_options c)" "opt_cwd \<in> set (set_options c)"
    "opt_seek_file \<in> set (set_options c)"
    by (simp_all add: set_options_def base_options_def)
  from this [THEN vals_cli_params, of reg cli] show ?thesis
    by (simp add: opt_dodo_def opt_cwd_def opt_seek_file_def)
qed

text \<open>
  Claim C1. Let the parameters of a command be built from the defaults of its options and
  the values \<open>cli\<close> of the command line, and let the loader, called with the manifest
  path, the working directory and the seek flag of these parameters, return the
  manifest \<open>dt\<close>. Then \<open>read_dodo\<close> returns parameters in which every option of the
  command has a value: the last one the command line gives it, if the command line
  sets it at all; else the one the configuration of the manifest \<open>dt\<close> declares for it,
  if there is one; else the default of its option dictionary.
\<close>

theorem precedence_law:
  assumes "ospec \<in> set (set_options c)"
    and "vals (cli_params (set_options c) reg cli) ''dodoFile'' = Some f"
    and "vals (cli_params (set_options c) reg cli) ''cwdPath'' = Some d"
    and "vals (cli_params (set_options c) reg cli) ''seek_file'' = Some s"
    and "get_tasks f d s (dom reg) = Inr dt"
  shows "\<exists>params' self.
     fst (read_dodo get_tasks (cli_params (set_options c) reg cli) args) =
       Inr (params', self) \<and>
     vals params' (opt_name ospec) = Some
       (case map_of (rev cli) (opt_name ospec) of
          Some v \<Rightarrow> v
        | None \<Rightarrow> (case dt_config dt (opt_name ospec) of
                     Some v \<Rightarrow> v
                   | None \<Rightarrow> opt_default ospec))"
proof -
  let ?p = "cli_params (set_options c) reg cli"
  let ?k = "opt_name ospec"
  let ?self = "\<lparr>task_list = dt_task_list dt, config = dt_config dt,
     sel_tasks = (if args \<noteq> [] then VList args
                  else (case dt_config dt ''default_tasks'' of None \<Rightarrow> VNone | Some v \<Rightarrow> v))\<rparr>"
  have r: "fst (read_dodo get_tasks ?p args) = Inr (update_defaults ?p (dt_config dt), ?self)"
    using assms(2-5) by (simp add: read_dodo_def getitem_def sub_cli_params)
  have v: "vals ?p ?k =
      Some (case map_of (rev cli) ?k of Some v \<Rightarrow> v | None \<Rightarrow> opt_default ospec)"
    by (rule vals_cli_params [OF assms(1)])
  have "vals (update_defaults ?p (dt_config dt)) ?k = Some
       (case map_of (rev cli) ?k of
          Some v \<Rightarrow> v
        | None \<Rightarrow> (case dt_config dt ?k of Some v \<Rightarrow> v | None \<Rightarrow> opt_default ospec))"
  proof (cases "map_of (rev cli) ?k")
    case None
    then have "?k \<notin> explicit ?p"
      by (simp add: explicit_cli_params map_of_rev_None [symmetric])
    with None v show ?thesis
      by (simp add: update_defaults_def split: option.splits)
  next
    case (Some a)
    then have "?k \<in> explicit ?p"
      using map_of_rev_None [of cli ?k] by (simp add: explicit_cli_params)
    with Some v show ?thesis
      by (simp add: update_defaults_def)
  qed
  with r show ?thesis by blast
qed

theorem precedence_law_witness:
  "\<exists>params' self.
     fst (read_dodo
           (\<lambda>f d s k.
              if f = VStr ''build.py'' then
                Inr \<lparr>dt_task_list = [1::nat],
                     dt_config = [''continue'' \<mapsto> VBool False, ''verbosity'' \<mapsto> VInt 2]\<rparr>
              else Inl (InvalidDodoFile ''no manifest''))
           (cli_params (set_options Run) sub_cmd
              [(''continue'', VBool True), (''dodoFile'', VStr ''build.py'')]) []) =
       Inr (params', self) \<and>
     vals params' ''continue'' = Some (VBool True) \<and>
     vals params' ''verbosity'' = Some (VInt 2) \<and>
     vals params' ''reporter'' = Some (VStr ''default'')"
proof -
  let ?cli = "[(''continue'', VBool True), (''dodoFile'', VStr ''build.py'')]"
  let ?cfg = "[''continue'' \<mapsto> VBool False, ''verbosity'' \<mapsto> VInt 2]"
  let ?dt = "\<lparr>dt_task_list = [1::nat], dt_config = ?cfg\<rparr>"
  let ?p = "cli_params (set_options Run) sub_cmd ?cli"
  let ?ld = "\<lambda>(f::val) (d::val) (s::val) (k::string set).
     if f = VStr ''build.py'' then (Inr ?dt :: exn + nat dodo_tasks)
     else Inl (InvalidDodoFile ''no manifest'')"
  have f: "vals ?p ''dodoFile'' = Some (VStr ''build.py'')"
    and d: "vals ?p ''cwdPath'' = Some VNone"
    and s: "vals ?p ''seek_file'' = Some (VBool False)"
    by (simp_all add: cli_params_def default_params_def set_options_def base_options_def
        set_cli_def opt_dodo_def opt_cwd_def opt_seek_file_def opt_depfile_def
        opt_always_def opt_continue_def opt_verbosity_def opt_reporter_def opt_outfile_def
        opt_num_process_def)
  have l: "?ld (VStr ''build.py'') VNone (VBool False) (dom sub_cmd) = Inr ?dt"
    by simp
  have m: "opt_continue \<in> set (set_options Run)" "opt_verbosity \<in> set (set_options Run)"
    "opt_reporter \<in> set (set_options Run)"
    by (simp_all add: set_options_def)
  have r: "fst (read_dodo ?ld ?p []) =
      Inr (update_defaults ?p ?cfg,
           \<lparr>task_list = [1::nat], config = ?cfg, sel_tasks = VNone\<rparr>)"
    using f d s by (simp add: read_dodo_def getitem_def)
  from precedence_law [of _ Run sub_cmd ?cli _ _ _ ?ld ?dt "[]", OF m(1) f d s l]
    precedence_law [of _ Run sub_cmd ?cli _ _ _ ?ld ?dt "[]", OF m(2) f d s l]
    precedence_law [of _ Run sub_cmd ?cli _ _ _ ?ld ?dt "[]", OF m(3) f d s l]
  have "vals (update_defaults ?p ?cfg) ''continue'' = Some (VBool True) \<and>
        vals (update_defaults ?p ?cfg) ''verbosity'' = Some (VInt 2) \<and>
        vals (update_defaults ?p ?cfg) ''reporter'' = Some (VStr ''default'')"
    unfolding r by (simp add: opt_continue_def opt_verbosity_def opt_reporter_def)
  with r show ?thesis by blast
qed

subsection \<open>The inverse flag of a boolean option\<close>

lemma last_pos_None_iff: "last_pos P xs = None \<longleftrightarrow> (\<forall>x \<in> set xs. \<not> P x)"
  by (induction xs) (auto split: option.splits)

text \<open>\<open>last_pos\<close> is the position of the last occurrence.\<close>

lemma last_pos_Some_iff:
  "last_pos P xs = Some i \<longleftrightarrow>
     i < length xs \<and> P (xs ! i) \<and> (\<forall>j. i < j \<and> j < length xs \<longrightarrow> \<not> P (xs ! j))"
proof (induction xs arbitrary: i)
  case Nil
  then show ?case by simp
next
  case (Cons x xs)
  show ?case
  proof (cases i)
    case 0
    have "(\<forall>j. 0 < j \<and> j < Suc (length xs) \<longrightarrow> \<not> P ((x # xs) ! j)) \<longleftrightarrow>
          last_pos P xs = None"
      unfolding last_pos_None_iff
    proof
      assume a: "\<forall>j. 0 < j \<and> j < Suc (length xs) \<longrightarrow> \<not> P ((x # xs) ! j)"
      show "\<forall>y \<in> set xs. \<not> P y"
      proof
        fix y assume "y \<in> set xs"
        then obtain k where "k < length xs" "xs ! k = y"
          by (auto simp: in_set_conv_nth)
        with a [rule_format, of "Suc k"] show "\<not> P y" by simp
      qed
    next
      assume a: "\<forall>y \<in> set xs. \<not> P y"
      show "\<forall>j. 0 < j \<and> j < Suc (length xs) \<longrightarrow> \<not> P ((x # xs) ! j)"
      proof (intro allI impI)
        fix j assume "0 < j \<and> j < Suc (length xs)"
        then obtain k where "j = Suc k" "k < length xs" by (cases j) auto
        with a show "\<not> P ((x # xs) ! j)" by simp
      qed
    qed
    with 0 show ?thesis
      by (cases "last_pos P xs") auto
  next
    case (Suc k)
    have "(\<forall>j. Suc k < j \<and> j < Suc (length xs) \<longrightarrow> \<not> P ((x # xs) ! j)) \<longleftrightarrow>
          (\<forall>j. k < j \<and> j < length xs \<longrightarrow> \<not> P (xs ! j))"
    proof
      assume a: "\<forall>j. Suc k < j \<and> j < Suc (length xs) \<longrightarrow> \<not> P ((x # xs) ! j)"
      show "\<forall>j. k < j \<and> j < length xs \<longrightarrow> \<not> P (xs ! j)"
      proof (intro allI impI)
        fix j assume "k < j \<and> j < length xs"
        with a [rule_format, of "Suc j"] show "\<not> P (xs ! j)" by simp
      qed
    next
      assume a: "\<forall>j. k < j \<and> j < length xs \<longrightarrow> \<not> P (xs ! j)"
      show "\<forall>j. Suc k < j \<and> j < Suc (length xs) \<longrightarrow> \<not> P ((x # xs) ! j)"
      proof (intro allI impI)
        fix j assume j: "Suc k < j \<and> j < Suc (length xs)"
        then obtain l where "j = Suc l" by (cases j) auto
        with j a [rule_format, of l] show "\<not> P ((x # xs) ! j)" by simp
      qed
    qed
    with Suc Cons.IH [of k] show ?thesis
      by (auto split: option.splits)
  qed
qed

text \<open>The resolved value in terms of the last occurrences of the flag and its inverse.\<close>

lemma parse_bool_last:
  "parse_bool ospec argv d =
     (case (last_pos (is_flag ospec) argv, last_pos (is_inverse ospec) argv) of
        (None, None) \<Rightarrow> d
      | (Some i, None) \<Rightarrow> True
      | (None, Some j) \<Rightarrow> False
      | (Some i, Some j) \<Rightarrow> \<not> i < j)"
  by (induction argv arbitrary: d) (auto split: option.splits)

text \<open>
  Claim C5. Let the flag of a boolean option occur in argv, the last time at position
  \<open>i\<close>. If the inverse flag occurs too, the last time at position \<open>j\<close>, the resolved
  value is false if and only if \<open>i < j\<close>; if the inverse flag does not occur, the value
  is true. So it is for every default value.
\<close>

theorem inverse_boolean_law:
  assumes "last_pos (is_flag ospec) argv = Some i"
  shows "(last_pos (is_inverse ospec) argv = Some j \<longrightarrow>
            (parse_bool ospec argv d = False \<longleftrightarrow> i < j)) \<and>
         (last_pos (is_inverse ospec) argv = None \<longrightarrow> parse_bool ospec argv d = True)"
  using assms by (simp add: parse_bool_last)

theorem inverse_boolean_law_witness:
  "parse_bool opt_continue [''--continue'', ''t1'', ''--no-continue''] False = False \<and>
   parse_bool opt_continue [''--no-continue'', ''-c'', ''t1''] False = True \<and>
   parse_bool opt_continue [''t1'', ''--continue''] False = True"
proof -
  have l1: "last_pos (is_flag opt_continue) [''--continue'', ''t1'', ''--no-continue''] = Some 0"
    and i1: "last_pos (is_inverse opt_continue) [''--continue'', ''t1'', ''--no-continue''] =
      Some 2"
    and l2: "last_pos (is_flag opt_continue) [''--no-continue'', ''-c'', ''t1''] = Some 1"
    and i2: "last_pos (is_inverse opt_continue) [''--no-continue'', ''-c'', ''t1''] = Some 0"
    and l3: "last_pos (is_flag opt_continue) [''t1'', ''--continue''] = Some 1"
    and i3: "last_pos (is_inverse opt_continue) [''t1'', ''--continue''] = None"
    by (simp_all add: is_flag_def is_inverse_def opt_continue_def)
  from inverse_boolean_law [OF l1, of 2 False] inverse_boolean_law [OF l2, of 0 False]
    inverse_boolean_law [OF l3, of 0 False] i1 i2 i3
  show ?thesis by simp
qed

end
